theory Spec2Isabelle
  imports Main "HOL-Library.Word"
begin

unbundle bit_operations_syntax

section \<open>Data model of \<open>validation/tx_ops.go\<close>\<close>

text \<open>
  Go strings and byte slices are sequences of 8-bit bytes, which is what a HOL \<open>string\<close>
  (a list of 8-bit characters) is. A slice that the code may hold as \<open>nil\<close> is an
  \<open>option\<close>: \<open>None\<close> is the nil slice, \<open>Some []\<close> the empty non-nil one. The conversion
  \<open>string(b)\<close> of the source maps both to the empty string.
\<close>

type_synonym bytes = string

definition string_of_bytes :: "bytes option \<Rightarrow> string" where
  "string_of_bytes b = (case b of None \<Rightarrow> [] | Some s \<Rightarrow> s)"

text \<open>A Go \<open>error\<close> value that is not nil.\<close>

datatype error = Error string

text \<open>\<open>type keyOpsFlag uint8\<close> with the four constants \<open>1 << iota\<close>.\<close>

type_synonym keyOpsFlag = "8 word"

definition upsertVal :: keyOpsFlag where "upsertVal = 1"
definition metadataUpdate :: keyOpsFlag where "metadataUpdate = 2"
definition metadataDelete :: keyOpsFlag where "metadataDelete = 4"
definition keyDelete :: keyOpsFlag where "keyDelete = 8"

record compositeKey =
  ns :: string
  coll :: string
  key :: string

record keyOps =
  flag :: keyOpsFlag
  "value" :: "bytes option"
  metadata :: "bytes option"
  deps :: "string list option"
  depSnapshot :: "64 word"

text \<open>The zero value \<open>&keyOps{}\<close>.\<close>

definition keyOps_zero :: keyOps where
  "keyOps_zero = \<lparr>flag = 0, value = None, metadata = None, deps = None, depSnapshot = 0\<rparr>"

text \<open>
  \<open>type txOps map[compositeKey]*keyOps\<close>. Every pointer stored in the map is allocated by
  \<open>getOrCreateKeyEntry\<close> for its own key and is reached through that key only, so no two
  keys alias one record and the map of records carries the same information.
\<close>

type_synonym txOps = "compositeKey \<rightharpoonup> keyOps"

section \<open>txOps functions\<close>

text \<open>
  \<open>getOrCreateKeyEntry\<close> returns the record stored under \<open>k\<close>, after storing the zero
  record there when the key is missing. The caller's writes through the returned pointer
  are the stores \<open>t(k \<mapsto> _)\<close> below.
\<close>

definition getOrCreateKeyEntry :: "compositeKey \<Rightarrow> txOps \<Rightarrow> keyOps \<times> txOps" where
  "getOrCreateKeyEntry k txops =
     (case txops k of
        Some keyops \<Rightarrow> (keyops, txops)
      | None \<Rightarrow> (keyOps_zero, txops(k \<mapsto> keyOps_zero)))"

definition upsert :: "compositeKey \<Rightarrow> bytes option \<Rightarrow> txOps \<Rightarrow> txOps" where
  "upsert k val txops =
     (case getOrCreateKeyEntry k txops of
        (keyops, t) \<Rightarrow> t(k \<mapsto> keyops\<lparr>flag := flag keyops + upsertVal, value := val\<rparr>))"

definition delete :: "compositeKey \<Rightarrow> txOps \<Rightarrow> txOps" where
  "delete k txops =
     (case getOrCreateKeyEntry k txops of
        (keyops, t) \<Rightarrow> t(k \<mapsto> keyops\<lparr>flag := flag keyops + keyDelete\<rparr>))"

definition upsertWithDep ::
  "compositeKey \<Rightarrow> bytes option \<Rightarrow> string list option \<Rightarrow> 64 word \<Rightarrow> txOps \<Rightarrow> txOps" where
  "upsertWithDep k val ds snap txops =
     (case getOrCreateKeyEntry k txops of
        (keyops, t) \<Rightarrow>
          t(k \<mapsto> keyops\<lparr>flag := flag keyops + upsertVal, value := val,
                          deps := ds, depSnapshot := snap\<rparr>))"

definition deleteWithDep ::
  "compositeKey \<Rightarrow> string list option \<Rightarrow> 64 word \<Rightarrow> txOps \<Rightarrow> txOps" where
  "deleteWithDep k ds snap txops =
     (case getOrCreateKeyEntry k txops of
        (keyops, t) \<Rightarrow>
          t(k \<mapsto> keyops\<lparr>flag := flag keyops + keyDelete, deps := ds, depSnapshot := snap\<rparr>))"

text \<open>
  The methods \<open>txOps.metadataUpdate\<close> and \<open>txOps.metadataDelete\<close> share their names with the
  flag constants; they carry the receiver's name here.
\<close>

definition txOps_metadataUpdate :: "compositeKey \<Rightarrow> bytes option \<Rightarrow> txOps \<Rightarrow> txOps" where
  "txOps_metadataUpdate k md txops =
     (case getOrCreateKeyEntry k txops of
        (keyops, t) \<Rightarrow> t(k \<mapsto> keyops\<lparr>flag := flag keyops + metadataUpdate, metadata := md\<rparr>))"

definition txOps_metadataDelete :: "compositeKey \<Rightarrow> txOps \<Rightarrow> txOps" where
  "txOps_metadataDelete k txops =
     (case getOrCreateKeyEntry k txops of
        (keyops, t) \<Rightarrow> t(k \<mapsto> keyops\<lparr>flag := flag keyops + metadataDelete\<rparr>))"

section \<open>keyOps functions\<close>

definition isDelete :: "keyOps \<Rightarrow> bool" where
  "isDelete keyops = (flag keyops AND keyDelete = keyDelete)"

definition isUpsertAndMetadataUpdate :: "keyOps \<Rightarrow> bool" where
  "isUpsertAndMetadataUpdate keyops =
     (if flag keyops AND upsertVal = upsertVal
      then flag keyops AND metadataUpdate = metadataUpdate \<or>
           flag keyops AND metadataDelete = metadataDelete
      else False)"

definition isOnlyUpsert :: "keyOps \<Rightarrow> bool" where
  "isOnlyUpsert keyops = (flag keyops OR upsertVal = upsertVal)"

section \<open>Inputs: the read-write set, the staging buffer and the state database\<close>

text \<open>
  The protobuf messages of \<open>kvrwset\<close> and the structs of \<open>rwsetutil\<close>, with the fields the
  code reads. Field names follow the Go ones, with a short prefix where two messages share
  a name. \<open>Version\<close> is the pair of block and transaction number, used both for the version
  of a read and for the height of a versioned value. Pointers that the code dereferences
  without a test are taken as not nil; \<open>kvRead.Version\<close> and \<open>Entries\<close>, which the code
  compares with nil, are options.
\<close>

record Version =
  BlockNum :: "64 word"
  TxNum :: "64 word"

record KVRead =
  rKey :: string
  rVersion :: "Version option"

record KVWrite =
  wKey :: string
  wIsDelete :: bool
  wValue :: "bytes option"

record KVMetadataEntry =
  eName :: string
  eValue :: "bytes option"

record KVMetadataWrite =
  mKey :: string
  mEntries :: "KVMetadataEntry list option"

record KVWriteHash =
  hKeyHash :: "bytes option"
  hIsDelete :: bool
  hValueHash :: "bytes option"

record KVMetadataWriteHash =
  mhKeyHash :: "bytes option"
  mhEntries :: "KVMetadataEntry list option"

record KVRWSet =
  Reads :: "KVRead list"
  Writes :: "KVWrite list"
  MetadataWrites :: "KVMetadataWrite list"

record HashedRWSet =
  HashedWrites :: "KVWriteHash list"
  HashedMetadataWrites :: "KVMetadataWriteHash list"

record CollHashedRwSet =
  CollectionName :: string
  HashedRwSet :: HashedRWSet

record NsRwSet =
  NameSpace :: string
  KvRwSet :: KVRWSet
  CollHashedRwSets :: "CollHashedRwSet list"

record TxRwSet =
  NsRwSets :: "NsRwSet list"

text \<open>\<open>statedb.VersionedValue\<close>; a nil pointer to it is \<open>None\<close> of the option type.\<close>

record VersionedValue =
  Value :: "bytes option"
  Metadata :: "bytes option"
  Version :: "Version option"

text \<open>
  The collaborators that are not part of this file are parameters: the two lookups of the
  staging buffer, the four lookups of the state database (each returns a value or an
  error), the serializer of metadata entries \<open>statemetadata.Serialize\<close>, and the two
  process-level toggles of \<open>localconfig\<close>.
\<close>

record publicAndHashUpdates =
  publicUpdates :: "string \<Rightarrow> string \<Rightarrow> VersionedValue option"
  hashUpdates :: "string \<Rightarrow> string \<Rightarrow> string \<Rightarrow> VersionedValue option"

record DB =
  GetState :: "string \<Rightarrow> string \<Rightarrow> error + VersionedValue option"
  GetValueHash :: "string \<Rightarrow> string \<Rightarrow> bytes \<Rightarrow> error + VersionedValue option"
  GetStateMetadata :: "string \<Rightarrow> string \<Rightarrow> error + bytes option"
  GetPrivateDataMetadataByHash :: "string \<Rightarrow> string \<Rightarrow> bytes \<Rightarrow> error + bytes option"

type_synonym serializer = "KVMetadataEntry list \<Rightarrow> error + bytes option"

record localconfig =
  LineageSupported :: bool
  IsOCC :: bool

definition MaxUint64 :: "64 word" where
  "MaxUint64 = 18446744073709551615"

section \<open>The string functions the projection uses\<close>

text \<open>\<open>strings.HasSuffix\<close>: the string is at least as long as the suffix and ends with it.\<close>

definition HasSuffix :: "string \<Rightarrow> string \<Rightarrow> bool" where
  "HasSuffix s suffix =
     (length suffix \<le> length s \<and> drop (length s - length suffix) s = suffix)"

text \<open>
  \<open>strings.Split\<close> for a separator of one byte, the only kind the code passes (\<open>"_"\<close>).
  The result is never empty: a string without the separator gives the string itself, the
  empty string gives one empty segment.
\<close>

fun Split :: "string \<Rightarrow> char \<Rightarrow> string list" where
  "Split [] sep = [[]]"
| "Split (c # cs) sep =
     (if c = sep then [] # Split cs sep
      else (c # hd (Split cs sep)) # tl (Split cs sep))"

section \<open>Projection of a read-write set: \<open>applyTxRwset\<close>\<close>

definition applyKVWrite :: "string \<Rightarrow> string \<Rightarrow> KVWrite \<Rightarrow> txOps \<Rightarrow> txOps" where
  "applyKVWrite n c kvWrite txops =
     (if wIsDelete kvWrite
      then delete \<lparr>ns = n, coll = c, key = wKey kvWrite\<rparr> txops
      else upsert \<lparr>ns = n, coll = c, key = wKey kvWrite\<rparr> (wValue kvWrite) txops)"

definition applyKVWriteWithDep ::
  "string \<Rightarrow> string \<Rightarrow> KVWrite \<Rightarrow> string list option \<Rightarrow> 64 word \<Rightarrow> txOps \<Rightarrow> txOps" where
  "applyKVWriteWithDep n c kvWrite ds snap txops =
     (if wIsDelete kvWrite
      then deleteWithDep \<lparr>ns = n, coll = c, key = wKey kvWrite\<rparr> ds snap txops
      else upsertWithDep \<lparr>ns = n, coll = c, key = wKey kvWrite\<rparr> (wValue kvWrite) ds snap txops)"

text \<open>
  \<open>applyMetadata\<close> returns its error (\<open>None\<close> is the nil error) together with the TxOps as
  it leaves it: unchanged when the serializer fails.
\<close>

definition applyMetadata ::
  "serializer \<Rightarrow> string \<Rightarrow> string \<Rightarrow> KVMetadataWrite \<Rightarrow> txOps \<Rightarrow> error option \<times> txOps" where
  "applyMetadata Serialize n c metadataWrite txops =
     (case mEntries metadataWrite of
        None \<Rightarrow> (None, txOps_metadataDelete \<lparr>ns = n, coll = c, key = mKey metadataWrite\<rparr> txops)
      | Some entries \<Rightarrow>
          (case Serialize entries of
             Inl err \<Rightarrow> (Some err, txops)
           | Inr metadataBytes \<Rightarrow>
               (None, txOps_metadataUpdate \<lparr>ns = n, coll = c, key = mKey metadataWrite\<rparr>
                        metadataBytes txops)))"

text \<open>
  The loop over \<open>Reads\<close> in provenance mode (the log lines left out): one step per read,
  on the running \<open>depSnapshot\<close>.
\<close>

definition readStep :: "localconfig \<Rightarrow> 64 word \<Rightarrow> KVRead \<Rightarrow> 64 word" where
  "readStep cfg snap kvRead =
     (if IsOCC cfg
      then (case rVersion kvRead of None \<Rightarrow> MaxUint64 | Some v \<Rightarrow> BlockNum v)
      else snap)"

definition depSnapshotOfReads :: "localconfig \<Rightarrow> KVRead list \<Rightarrow> 64 word" where
  "depSnapshotOfReads cfg reads = foldl (readStep cfg) MaxUint64 reads"

text \<open>
  The first loop over \<open>Writes\<close>: a write whose key ends in \<open>_prov\<close> stores, under the first
  \<open>_\<close>-separated segment of its key, the non-empty \<open>_\<close>-separated segments of its value.
  \<open>depKeys\<close> starts as the empty non-nil slice, so the stored lists are never nil.
\<close>

definition depKeysOf :: "bytes option \<Rightarrow> string list" where
  "depKeysOf v = filter (\<lambda>dk. dk \<noteq> []) (Split (string_of_bytes v) CHR ''_'')"

definition depsStep :: "(string \<rightharpoonup> string list) \<Rightarrow> KVWrite \<Rightarrow> (string \<rightharpoonup> string list)" where
  "depsStep ds kvWrite =
     (if HasSuffix (wKey kvWrite) ''_prov''
      then ds(hd (Split (wKey kvWrite) CHR ''_'') \<mapsto> depKeysOf (wValue kvWrite))
      else ds)"

definition collectDeps :: "KVWrite list \<Rightarrow> (string \<rightharpoonup> string list)" where
  "collectDeps writes = foldl depsStep Map.empty writes"

text \<open>The second loop over \<open>Writes\<close>: the markers are skipped, the others carry their deps.\<close>

definition writeWithDepStep ::
  "string \<Rightarrow> (string \<rightharpoonup> string list) \<Rightarrow> 64 word \<Rightarrow> txOps \<Rightarrow> KVWrite \<Rightarrow> txOps" where
  "writeWithDepStep n ds snap txops kvWrite =
     (if HasSuffix (wKey kvWrite) ''_prov'' then txops
      else applyKVWriteWithDep n [] kvWrite
             (Some (case ds (wKey kvWrite) of Some d \<Rightarrow> d | None \<Rightarrow> [])) snap txops)"

definition applyWrites :: "localconfig \<Rightarrow> string \<Rightarrow> KVRWSet \<Rightarrow> txOps \<Rightarrow> txOps" where
  "applyWrites cfg n kv txops =
     (if LineageSupported cfg
      then foldl (writeWithDepStep n (collectDeps (Writes kv)) (depSnapshotOfReads cfg (Reads kv)))
             txops (Writes kv)
      else foldl (\<lambda>t kvWrite. applyKVWrite n [] kvWrite t) txops (Writes kv))"

text \<open>The loops over metadata writes drop the error that \<open>applyMetadata\<close> returns.\<close>

definition applyMetadataWrites ::
  "serializer \<Rightarrow> string \<Rightarrow> string \<Rightarrow> KVMetadataWrite list \<Rightarrow> txOps \<Rightarrow> txOps" where
  "applyMetadataWrites Serialize n c mws txops =
     foldl (\<lambda>t kvMetadataWrite. snd (applyMetadata Serialize n c kvMetadataWrite t)) txops mws"

definition kvWriteOfHash :: "KVWriteHash \<Rightarrow> KVWrite" where
  "kvWriteOfHash hashedWrite =
     \<lparr>wKey = string_of_bytes (hKeyHash hashedWrite), wIsDelete = hIsDelete hashedWrite,
      wValue = hValueHash hashedWrite\<rparr>"

definition kvMetadataWriteOfHash :: "KVMetadataWriteHash \<Rightarrow> KVMetadataWrite" where
  "kvMetadataWriteOfHash metadataWrite =
     \<lparr>mKey = string_of_bytes (mhKeyHash metadataWrite), mEntries = mhEntries metadataWrite\<rparr>"

definition applyCollHashedRwSet ::
  "serializer \<Rightarrow> string \<Rightarrow> txOps \<Rightarrow> CollHashedRwSet \<Rightarrow> txOps" where
  "applyCollHashedRwSet Serialize n txops collHashRWset =
     applyMetadataWrites Serialize n (CollectionName collHashRWset)
       (map kvMetadataWriteOfHash (HashedMetadataWrites (HashedRwSet collHashRWset)))
       (foldl (\<lambda>t hashedWrite. applyKVWrite n (CollectionName collHashRWset)
                 (kvWriteOfHash hashedWrite) t)
          txops (HashedWrites (HashedRwSet collHashRWset)))"

definition applyNsRwSet :: "localconfig \<Rightarrow> serializer \<Rightarrow> txOps \<Rightarrow> NsRwSet \<Rightarrow> txOps" where
  "applyNsRwSet cfg Serialize txops nsRWSet =
     foldl (applyCollHashedRwSet Serialize (NameSpace nsRWSet))
       (applyMetadataWrites Serialize (NameSpace nsRWSet) []
          (MetadataWrites (KvRwSet nsRWSet))
          (applyWrites cfg (NameSpace nsRWSet) (KvRwSet nsRWSet) txops))
       (CollHashedRwSets nsRWSet)"

text \<open>\<open>applyTxRwset\<close> ends in \<open>return nil\<close> on its only path.\<close>

definition applyTxRwset ::
  "localconfig \<Rightarrow> serializer \<Rightarrow> TxRwSet \<Rightarrow> txOps \<Rightarrow> error option \<times> txOps" where
  "applyTxRwset cfg Serialize rwset txops =
     (None, foldl (applyNsRwSet cfg Serialize) txops (NsRwSets rwset))"

section \<open>The resolver of the latest state\<close>

definition retrieveLatestState ::
  "string \<Rightarrow> string \<Rightarrow> string \<Rightarrow> publicAndHashUpdates \<Rightarrow> DB \<Rightarrow> error + VersionedValue option" where
  "retrieveLatestState n c k precedingUpdates db =
     (if c = []
      then (case publicUpdates precedingUpdates n k of
              Some vv \<Rightarrow> Inr (Some vv)
            | None \<Rightarrow> GetState db n k)
      else (case hashUpdates precedingUpdates n c k of
              Some vv \<Rightarrow> Inr (Some vv)
            | None \<Rightarrow> GetValueHash db n c k))"

definition retrieveLatestMetadata ::
  "string \<Rightarrow> string \<Rightarrow> string \<Rightarrow> publicAndHashUpdates \<Rightarrow> DB \<Rightarrow> error + bytes option" where
  "retrieveLatestMetadata n c k precedingUpdates db =
     (if c = []
      then (case publicUpdates precedingUpdates n k of
              Some vv \<Rightarrow> Inr (Metadata vv)
            | None \<Rightarrow> GetStateMetadata db n k)
      else (case hashUpdates precedingUpdates n c k of
              Some vv \<Rightarrow> Inr (Metadata vv)
            | None \<Rightarrow> GetPrivateDataMetadataByHash db n c k))"

section \<open>The merge stage: \<open>prepareTxOps\<close>\<close>

text \<open>
  The loop \<open>for ck, keyop := range txops\<close> visits every key of the map once, in an order
  that Go leaves open; the order is the list \<open>cks\<close>. The loop deletes the key it is at
  only, so no key is skipped. Next to the outcome (the error, or the TxOps) the model
  returns the calls of the resolver the loop has made, in order.
\<close>

datatype resolverCall = LatestMetadata compositeKey | LatestState compositeKey

fun mergeLoop ::
  "publicAndHashUpdates \<Rightarrow> DB \<Rightarrow> compositeKey list \<Rightarrow> txOps \<Rightarrow>
   resolverCall list \<times> (error + txOps)" where
  "mergeLoop precedingUpdates db [] txops = ([], Inr txops)"
| "mergeLoop precedingUpdates db (ck # cks) txops =
     (case txops ck of
        None \<Rightarrow> mergeLoop precedingUpdates db cks txops
      | Some keyop \<Rightarrow>
          if isDelete keyop \<or> isUpsertAndMetadataUpdate keyop
          then mergeLoop precedingUpdates db cks txops
          else if isOnlyUpsert keyop
          then (case retrieveLatestMetadata (ns ck) (coll ck) (key ck) precedingUpdates db of
                  Inl err \<Rightarrow> ([LatestMetadata ck], Inl err)
                | Inr latestMetadata \<Rightarrow>
                    (case mergeLoop precedingUpdates db cks
                            (txops(ck \<mapsto> keyop\<lparr>metadata := latestMetadata\<rparr>)) of
                       (calls, res) \<Rightarrow> (LatestMetadata ck # calls, res)))
          else (case retrieveLatestState (ns ck) (coll ck) (key ck) precedingUpdates db of
                  Inl err \<Rightarrow> ([LatestState ck], Inl err)
                | Inr latestVal \<Rightarrow>
                    (case mergeLoop precedingUpdates db cks
                            (case latestVal of
                               Some vv \<Rightarrow> txops(ck \<mapsto> keyop\<lparr>value := Value vv\<rparr>)
                             | None \<Rightarrow> txops(ck := None)) of
                       (calls, res) \<Rightarrow> (LatestState ck # calls, res))))"

text \<open>
  \<open>rangeOrder cks txops\<close>: the list is an order in which \<open>range\<close> may visit the map.
\<close>

definition rangeOrder :: "compositeKey list \<Rightarrow> txOps \<Rightarrow> bool" where
  "rangeOrder cks txops = (distinct cks \<and> set cks = dom txops)"

text \<open>
  \<open>prepareTxOps\<close> projects the read-write set onto an empty TxOps, drops what
  \<open>applyTxRwset\<close> returns, and runs the merge loop. The parameter \<open>txht\<close> of the source is
  not used by it and is left out.
\<close>

definition projection :: "localconfig \<Rightarrow> serializer \<Rightarrow> TxRwSet \<Rightarrow> txOps" where
  "projection cfg Serialize rwset = snd (applyTxRwset cfg Serialize rwset Map.empty)"

definition prepareTxOps ::
  "localconfig \<Rightarrow> serializer \<Rightarrow> compositeKey list \<Rightarrow> TxRwSet \<Rightarrow> publicAndHashUpdates \<Rightarrow> DB \<Rightarrow>
   resolverCall list \<times> (error + txOps)" where
  "prepareTxOps cfg Serialize cks rwset precedingUpdates db =
     mergeLoop precedingUpdates db cks (projection cfg Serialize rwset)"

section \<open>Vocabulary of the statements\<close>

text \<open>
  The composite keys that the parts of one namespace record name: its public writes, its
  public metadata writes, and the writes and metadata writes of its hashed collections.
\<close>

definition publicWriteKeys :: "NsRwSet \<Rightarrow> compositeKey list" where
  "publicWriteKeys nsRWSet =
     map (\<lambda>kvWrite. \<lparr>ns = NameSpace nsRWSet, coll = [], key = wKey kvWrite\<rparr>)
       (Writes (KvRwSet nsRWSet))"

definition publicMetadataKeys :: "NsRwSet \<Rightarrow> compositeKey list" where
  "publicMetadataKeys nsRWSet =
     map (\<lambda>mw. \<lparr>ns = NameSpace nsRWSet, coll = [], key = mKey mw\<rparr>)
       (MetadataWrites (KvRwSet nsRWSet))"

definition collHashedKeys :: "string \<Rightarrow> CollHashedRwSet \<Rightarrow> compositeKey list" where
  "collHashedKeys n collHashRWset =
     map (\<lambda>hw. \<lparr>ns = n, coll = CollectionName collHashRWset,
                 key = string_of_bytes (hKeyHash hw)\<rparr>)
       (HashedWrites (HashedRwSet collHashRWset)) @
     map (\<lambda>mw. \<lparr>ns = n, coll = CollectionName collHashRWset,
                 key = string_of_bytes (mhKeyHash mw)\<rparr>)
       (HashedMetadataWrites (HashedRwSet collHashRWset))"

definition hashedKeys :: "NsRwSet \<Rightarrow> compositeKey list" where
  "hashedKeys nsRWSet =
     concat (map (collHashedKeys (NameSpace nsRWSet)) (CollHashedRwSets nsRWSet))"

text \<open>No entry carries deps or a snapshot: both slots hold their zero values.\<close>

definition noDeps :: "txOps \<Rightarrow> bool" where
  "noDeps t = (\<forall>k e. t k = Some e \<longrightarrow> deps e = None \<and> depSnapshot e = 0)"

section \<open>Sample collaborators\<close>

text \<open>
  Concrete collaborators for the examples below: an empty staging buffer, an empty state
  database, a database that holds the key \<open>k\<close> of namespace \<open>n\<close> with value \<open>v0\<close> and
  metadata \<open>M_old\<close>, a serializer that writes names and values one after the other, a
  serializer that fails, and the four settings of the two toggles.
\<close>

definition noUpdates :: publicAndHashUpdates where
  "noUpdates = \<lparr>publicUpdates = (\<lambda>n k. None), hashUpdates = (\<lambda>n c k. None)\<rparr>"

definition emptyDB :: DB where
  "emptyDB = \<lparr>GetState = (\<lambda>n k. Inr None), GetValueHash = (\<lambda>n c k. Inr None),
              GetStateMetadata = (\<lambda>n k. Inr None),
              GetPrivateDataMetadataByHash = (\<lambda>n c k. Inr None)\<rparr>"

definition sampleDB :: DB where
  "sampleDB =
     \<lparr>GetState = (\<lambda>n k. if n = ''n'' \<and> k = ''k''
          then Inr (Some \<lparr>Value = Some ''v0'', Metadata = Some ''M_old'', Version = None\<rparr>)
          else Inr None),
      GetValueHash = (\<lambda>n c k. Inr None),
      GetStateMetadata = (\<lambda>n k. if n = ''n'' \<and> k = ''k'' then Inr (Some ''M_old'')
          else Inr None),
      GetPrivateDataMetadataByHash = (\<lambda>n c k. Inr None)\<rparr>"

definition sampleSerialize :: serializer where
  "sampleSerialize entries =
     Inr (Some (concat (map (\<lambda>e. eName e @ string_of_bytes (eValue e)) entries)))"

definition failingSerialize :: serializer where
  "failingSerialize entries = Inl (Error ''marshal'')"

definition plainConfig :: localconfig where
  "plainConfig = \<lparr>LineageSupported = False, IsOCC = False\<rparr>"

definition lineageConfig :: localconfig where
  "lineageConfig = \<lparr>LineageSupported = True, IsOCC = False\<rparr>"

definition lineageOCCConfig :: localconfig where
  "lineageOCCConfig = \<lparr>LineageSupported = True, IsOCC = True\<rparr>"

text \<open>A read-write set with one namespace \<open>n\<close> and no hashed collections.\<close>

definition publicRwSet :: "KVRead list \<Rightarrow> KVWrite list \<Rightarrow> KVMetadataWrite list \<Rightarrow> TxRwSet" where
  "publicRwSet reads writes mws =
     \<lparr>NsRwSets = [\<lparr>NameSpace = ''n'',
                   KvRwSet = \<lparr>Reads = reads, Writes = writes, MetadataWrites = mws\<rparr>,
                   CollHashedRwSets = []\<rparr>]\<rparr>"

definition ck_n_k :: compositeKey where
  "ck_n_k = \<lparr>ns = ''n'', coll = [], key = ''k''\<rparr>"

text \<open>
  A read-write set whose only content is a hashed write, a delete, in collection \<open>c\<close> of
  namespace \<open>n\<close>, for a key hash that ends in the bytes \<open>_prov\<close>.
\<close>

definition hashedProvRwSet :: TxRwSet where
  "hashedProvRwSet =
     \<lparr>NsRwSets = [\<lparr>NameSpace = ''n'',
                   KvRwSet = \<lparr>Reads = [], Writes = [], MetadataWrites = []\<rparr>,
                   CollHashedRwSets =
                     [\<lparr>CollectionName = ''c'',
                       HashedRwSet =
                         \<lparr>HashedWrites = [\<lparr>hKeyHash = Some ''h_prov'', hIsDelete = True,
                                            hValueHash = None\<rparr>],
                          HashedMetadataWrites = []\<rparr>\<rparr>]\<rparr>]\<rparr>"

section \<open>Properties of the mutation primitives\<close>

lemma getOrCreateKeyEntry_empty:
  "getOrCreateKeyEntry k Map.empty = (keyOps_zero, [k \<mapsto> keyOps_zero])"
  by (simp add: getOrCreateKeyEntry_def)

lemma getOrCreateKeyEntry_present:
  "txops k = Some e \<Longrightarrow> getOrCreateKeyEntry k txops = (e, txops)"
  by (simp add: getOrCreateKeyEntry_def)

lemma upsert_present:
  "txops k = Some e \<Longrightarrow>
   upsert k val txops = txops(k \<mapsto> e\<lparr>flag := flag e + upsertVal, value := val\<rparr>)"
  by (simp add: upsert_def getOrCreateKeyEntry_present)

lemma upsert_absent:
  "txops k = None \<Longrightarrow>
   upsert k val txops = txops(k \<mapsto> keyOps_zero\<lparr>flag := upsertVal, value := val\<rparr>)"
  by (simp add: upsert_def getOrCreateKeyEntry_def keyOps_zero_def)

section \<open>The merge loop, one key at a time\<close>

text \<open>
  One round of the loop is one of six cases: the key is left alone, the metadata lookup
  fails or succeeds, the state lookup fails, finds nothing, or finds a value.
\<close>

lemma mergeLoop_step:
  obtains
    (skip) "mergeLoop pu db (a # cks) t = mergeLoop pu db cks t"
           "case t a of None \<Rightarrow> True | Some e \<Rightarrow> isDelete e \<or> isUpsertAndMetadataUpdate e"
  | (mdErr) e err where "t a = Some e" "\<not> isDelete e" "\<not> isUpsertAndMetadataUpdate e"
           "isOnlyUpsert e"
           "retrieveLatestMetadata (ns a) (coll a) (key a) pu db = Inl err"
           "mergeLoop pu db (a # cks) t = ([LatestMetadata a], Inl err)"
  | (md) e m where "t a = Some e" "\<not> isDelete e" "\<not> isUpsertAndMetadataUpdate e"
           "isOnlyUpsert e"
           "retrieveLatestMetadata (ns a) (coll a) (key a) pu db = Inr m"
           "mergeLoop pu db (a # cks) t =
              (LatestMetadata a # fst (mergeLoop pu db cks (t(a \<mapsto> e\<lparr>metadata := m\<rparr>))),
               snd (mergeLoop pu db cks (t(a \<mapsto> e\<lparr>metadata := m\<rparr>))))"
  | (stErr) e err where "t a = Some e" "\<not> isDelete e" "\<not> isUpsertAndMetadataUpdate e"
           "\<not> isOnlyUpsert e"
           "retrieveLatestState (ns a) (coll a) (key a) pu db = Inl err"
           "mergeLoop pu db (a # cks) t = ([LatestState a], Inl err)"
  | (stNone) e where "t a = Some e" "\<not> isDelete e" "\<not> isUpsertAndMetadataUpdate e"
           "\<not> isOnlyUpsert e"
           "retrieveLatestState (ns a) (coll a) (key a) pu db = Inr None"
           "mergeLoop pu db (a # cks) t =
              (LatestState a # fst (mergeLoop pu db cks (t(a := None))),
               snd (mergeLoop pu db cks (t(a := None))))"
  | (stSome) e vv where "t a = Some e" "\<not> isDelete e" "\<not> isUpsertAndMetadataUpdate e"
           "\<not> isOnlyUpsert e"
           "retrieveLatestState (ns a) (coll a) (key a) pu db = Inr (Some vv)"
           "mergeLoop pu db (a # cks) t =
              (LatestState a # fst (mergeLoop pu db cks (t(a \<mapsto> e\<lparr>value := Value vv\<rparr>))),
               snd (mergeLoop pu db cks (t(a \<mapsto> e\<lparr>value := Value vv\<rparr>))))"
proof (cases "t a")
  case None
  then show ?thesis using skip by simp
next
  case (Some e)
  show ?thesis
  proof (cases "isDelete e \<or> isUpsertAndMetadataUpdate e")
    case True
    with Some show ?thesis using skip by simp
  next
    case False
    note F = False
    show ?thesis
    proof (cases "isOnlyUpsert e")
      case True
      show ?thesis
      proof (cases "retrieveLatestMetadata (ns a) (coll a) (key a) pu db")
        case (Inl err)
        with Some F True show ?thesis using mdErr[of e err] by simp
      next
        case (Inr m)
        with Some F True show ?thesis using md[of e m] by (simp add: case_prod_beta)
      qed
    next
      case False
      show ?thesis
      proof (cases "retrieveLatestState (ns a) (coll a) (key a) pu db")
        case (Inl err)
        with Some F False show ?thesis using stErr[of e err] by simp
      next
        case (Inr l)
        show ?thesis
        proof (cases l)
          case None
          with Inr Some F False show ?thesis using stNone[of e] by (simp add: case_prod_beta)
        next
          case (Some vv)
          with Inr \<open>t a = Some e\<close> F False show ?thesis
            using stSome[of e vv] by (simp add: case_prod_beta)
        qed
      qed
    qed
  qed
qed

lemma mergeLoop_frame:
  "ck \<notin> set cks \<Longrightarrow> snd (mergeLoop pu db cks t) = Inr t' \<Longrightarrow> t' ck = t ck"
proof (induction cks arbitrary: t)
  case Nil
  then show ?case by simp
next
  case (Cons a cks)
  from Cons.prems(1) have na: "a \<noteq> ck" and notin: "ck \<notin> set cks" by auto
  note IH = Cons.IH[OF notin]
  show ?case
  proof (cases rule: mergeLoop_step[of pu db a cks t])
    case skip
    with Cons.prems(2) IH show ?thesis by simp
  next
    case (mdErr e err)
    with Cons.prems(2) show ?thesis by simp
  next
    case (md e m)
    with Cons.prems(2)
    have "snd (mergeLoop pu db cks (t(a \<mapsto> e\<lparr>metadata := m\<rparr>))) = Inr t'" by simp
    from IH[OF this] na show ?thesis by simp
  next
    case (stErr e err)
    with Cons.prems(2) show ?thesis by simp
  next
    case (stNone e)
    with Cons.prems(2) have "snd (mergeLoop pu db cks (t(a := None))) = Inr t'" by simp
    from IH[OF this] na show ?thesis by simp
  next
    case (stSome e vv)
    with Cons.prems(2)
    have "snd (mergeLoop pu db cks (t(a \<mapsto> e\<lparr>value := Value vv\<rparr>))) = Inr t'" by simp
    from IH[OF this] na show ?thesis by simp
  qed
qed

lemma mergeLoop_entry:
  "distinct cks \<Longrightarrow> ck \<in> set cks \<Longrightarrow> t ck = Some e \<Longrightarrow>
   snd (mergeLoop pu db cks t) = Inr t' \<Longrightarrow>
   (if isDelete e \<or> isUpsertAndMetadataUpdate e then t' ck = Some e
    else if isOnlyUpsert e
    then (\<exists>m. retrieveLatestMetadata (ns ck) (coll ck) (key ck) pu db = Inr m \<and>
               t' ck = Some (e\<lparr>metadata := m\<rparr>))
    else (\<exists>l. retrieveLatestState (ns ck) (coll ck) (key ck) pu db = Inr l \<and>
               t' ck = (case l of None \<Rightarrow> None | Some vv \<Rightarrow> Some (e\<lparr>value := Value vv\<rparr>))))"
proof (induction cks arbitrary: t)
  case Nil
  then show ?case by simp
next
  case (Cons a cks)
  from Cons.prems(1) have d: "distinct cks" and an: "a \<notin> set cks" by auto
  show ?case
  proof (cases "a = ck")
    case True
    with an have notin: "ck \<notin> set cks" by simp
    note fr = mergeLoop_frame[OF notin]
    show ?thesis
    proof (cases rule: mergeLoop_step[of pu db a cks t])
      case skip
      with Cons.prems(4) have "snd (mergeLoop pu db cks t) = Inr t'" by simp
      from fr[OF this] skip(2) Cons.prems(3) True show ?thesis by simp
    next
      case (mdErr e' err)
      with Cons.prems(4) show ?thesis by simp
    next
      case (md e' m)
      with Cons.prems(4)
      have "snd (mergeLoop pu db cks (t(a \<mapsto> e'\<lparr>metadata := m\<rparr>))) = Inr t'" by simp
      from fr[OF this] md(1-5) Cons.prems(3) True show ?thesis by simp
    next
      case (stErr e' err)
      with Cons.prems(4) show ?thesis by simp
    next
      case (stNone e')
      with Cons.prems(4) have "snd (mergeLoop pu db cks (t(a := None))) = Inr t'" by simp
      from fr[OF this] stNone(1-5) Cons.prems(3) True show ?thesis by simp
    next
      case (stSome e' vv)
      with Cons.prems(4)
      have "snd (mergeLoop pu db cks (t(a \<mapsto> e'\<lparr>value := Value vv\<rparr>))) = Inr t'" by simp
      from fr[OF this] stSome(1-5) Cons.prems(3) True show ?thesis by simp
    qed
  next
    case False
    with Cons.prems(2) have m: "ck \<in> set cks" by simp
    note IH = Cons.IH[OF d m]
    show ?thesis
    proof (cases rule: mergeLoop_step[of pu db a cks t])
      case skip
      with Cons.prems(4) have "snd (mergeLoop pu db cks t) = Inr t'" by simp
      from IH[OF Cons.prems(3) this] show ?thesis .
    next
      case (mdErr e' err)
      with Cons.prems(4) show ?thesis by simp
    next
      case (md e' m)
      from Cons.prems(3) False
      have 1: "(t(a \<mapsto> e'\<lparr>metadata := m\<rparr>)) ck = Some e" by simp
      from md Cons.prems(4)
      have 2: "snd (mergeLoop pu db cks (t(a \<mapsto> e'\<lparr>metadata := m\<rparr>))) = Inr t'" by simp
      from IH[OF 1 2] show ?thesis .
    next
      case (stErr e' err)
      with Cons.prems(4) show ?thesis by simp
    next
      case (stNone e')
      from Cons.prems(3) False have 1: "(t(a := None)) ck = Some e" by simp
      from stNone Cons.prems(4)
      have 2: "snd (mergeLoop pu db cks (t(a := None))) = Inr t'" by simp
      from IH[OF 1 2] show ?thesis .
    next
      case (stSome e' vv)
      from Cons.prems(3) False
      have 1: "(t(a \<mapsto> e'\<lparr>value := Value vv\<rparr>)) ck = Some e" by simp
      from stSome Cons.prems(4)
      have 2: "snd (mergeLoop pu db cks (t(a \<mapsto> e'\<lparr>value := Value vv\<rparr>))) = Inr t'" by simp
      from IH[OF 1 2] show ?thesis .
    qed
  qed
qed

lemma mergeLoop_calls:
  "distinct cks \<Longrightarrow> c \<in> set (fst (mergeLoop pu db cks t)) \<Longrightarrow>
   \<exists>ck e. ck \<in> set cks \<and> t ck = Some e \<and> \<not> isDelete e \<and> \<not> isUpsertAndMetadataUpdate e \<and>
     (c = LatestMetadata ck \<or> c = LatestState ck)"
proof (induction cks arbitrary: t)
  case Nil
  then show ?case by simp
next
  case (Cons a cks)
  from Cons.prems(1) have d: "distinct cks" and an: "a \<notin> set cks" by auto
  note IH = Cons.IH[OF d]
  have later: "\<And>t2. (\<And>k. k \<noteq> a \<Longrightarrow> t2 k = t k) \<Longrightarrow> c \<in> set (fst (mergeLoop pu db cks t2)) \<Longrightarrow>
     \<exists>ck e. ck \<in> set (a # cks) \<and> t ck = Some e \<and> \<not> isDelete e \<and> \<not> isUpsertAndMetadataUpdate e \<and>
     (c = LatestMetadata ck \<or> c = LatestState ck)"
  proof -
    fix t2 assume eq: "\<And>k. k \<noteq> a \<Longrightarrow> t2 k = t k"
      and c: "c \<in> set (fst (mergeLoop pu db cks t2))"
    from IH[OF c] obtain ck e where h: "ck \<in> set cks" "t2 ck = Some e" "\<not> isDelete e"
      "\<not> isUpsertAndMetadataUpdate e" "c = LatestMetadata ck \<or> c = LatestState ck" by blast
    from h(1) an have "ck \<noteq> a" by auto
    with eq h(2) have "t ck = Some e" by simp
    with h show "\<exists>ck e. ck \<in> set (a # cks) \<and> t ck = Some e \<and> \<not> isDelete e \<and>
       \<not> isUpsertAndMetadataUpdate e \<and> (c = LatestMetadata ck \<or> c = LatestState ck)"
      by auto
  qed
  show ?case
  proof (cases rule: mergeLoop_step[of pu db a cks t])
    case skip
    with Cons.prems(2) later[of t] show ?thesis by simp
  next
    case (mdErr e err)
    with Cons.prems(2) show ?thesis by auto
  next
    case (md e m)
    show ?thesis
    proof (cases "c = LatestMetadata a")
      case True
      with md show ?thesis by auto
    next
      case False
      with md Cons.prems(2) have "c \<in> set (fst (mergeLoop pu db cks (t(a \<mapsto> e\<lparr>metadata := m\<rparr>))))"
        by simp
      from later[OF _ this] show ?thesis by simp
    qed
  next
    case (stErr e err)
    with Cons.prems(2) show ?thesis by auto
  next
    case (stNone e)
    show ?thesis
    proof (cases "c = LatestState a")
      case True
      with stNone show ?thesis by auto
    next
      case False
      with stNone Cons.prems(2) have "c \<in> set (fst (mergeLoop pu db cks (t(a := None))))"
        by simp
      from later[OF _ this] show ?thesis by simp
    qed
  next
    case (stSome e vv)
    show ?thesis
    proof (cases "c = LatestState a")
      case True
      with stSome show ?thesis by auto
    next
      case False
      with stSome Cons.prems(2)
      have "c \<in> set (fst (mergeLoop pu db cks (t(a \<mapsto> e\<lparr>value := Value vv\<rparr>))))"
        by simp
      from later[OF _ this] show ?thesis by simp
    qed
  qed
qed

section \<open>How the three predicates classify a flag\<close>

lemma onlyUpsert_absorb:
  assumes "isOnlyUpsert e" shows "flag e = flag e AND upsertVal"
proof -
  have "flag e = flag e AND (flag e OR upsertVal)" by (simp add: word_ao_absorbs)
  with assms show ?thesis by (simp add: isOnlyUpsert_def)
qed

lemma isOnlyUpsert_not_isDelete: "isOnlyUpsert e \<Longrightarrow> \<not> isDelete e"
proof
  assume a: "isOnlyUpsert e" and d: "isDelete e"
  have "flag e AND keyDelete = (flag e AND upsertVal) AND keyDelete"
    using onlyUpsert_absorb[OF a] by simp
  also have "\<dots> = flag e AND (upsertVal AND keyDelete)" by (simp add: and.assoc)
  also have "\<dots> = 0" by (simp add: upsertVal_def keyDelete_def)
  finally show False using d by (simp add: isDelete_def keyDelete_def)
qed

lemma isOnlyUpsert_not_isUpsertAndMetadataUpdate:
  "isOnlyUpsert e \<Longrightarrow> \<not> isUpsertAndMetadataUpdate e"
proof
  assume a: "isOnlyUpsert e" and d: "isUpsertAndMetadataUpdate e"
  have "flag e AND metadataUpdate = (flag e AND upsertVal) AND metadataUpdate"
    using onlyUpsert_absorb[OF a] by simp
  also have "\<dots> = flag e AND (upsertVal AND metadataUpdate)" by (simp add: and.assoc)
  also have "\<dots> = 0" by (simp add: upsertVal_def metadataUpdate_def)
  finally have 1: "flag e AND metadataUpdate = 0" .
  have "flag e AND metadataDelete = (flag e AND upsertVal) AND metadataDelete"
    using onlyUpsert_absorb[OF a] by simp
  also have "\<dots> = flag e AND (upsertVal AND metadataDelete)" by (simp add: and.assoc)
  also have "\<dots> = 0" by (simp add: upsertVal_def metadataDelete_def)
  finally have 2: "flag e AND metadataDelete = 0" .
  from d 1 2 show False
    by (simp add: isUpsertAndMetadataUpdate_def metadataUpdate_def metadataDelete_def split: if_splits)
qed





section \<open>Unfolding the model on concrete inputs\<close>

lemmas projection_defs =
  projection_def applyTxRwset_def applyNsRwSet_def applyCollHashedRwSet_def
  applyMetadataWrites_def applyWrites_def applyMetadata_def applyKVWrite_def
  applyKVWriteWithDep_def writeWithDepStep_def collectDeps_def depsStep_def depKeysOf_def
  depSnapshotOfReads_def readStep_def kvWriteOfHash_def kvMetadataWriteOfHash_def
  string_of_bytes_def HasSuffix_def
  upsert_def delete_def upsertWithDep_def deleteWithDep_def txOps_metadataUpdate_def
  txOps_metadataDelete_def getOrCreateKeyEntry_def keyOps_zero_def

lemmas flag_defs =
  upsertVal_def metadataUpdate_def metadataDelete_def keyDelete_def
  isDelete_def isUpsertAndMetadataUpdate_def isOnlyUpsert_def

lemmas sample_defs =
  noUpdates_def emptyDB_def sampleDB_def sampleSerialize_def failingSerialize_def
  plainConfig_def lineageConfig_def lineageOCCConfig_def publicRwSet_def ck_n_k_def

section \<open>The merge stage on the read-write set\<close>



text \<open>
  C4. Take an entry of the projected TxOps that satisfies \<open>isOnlyUpsert\<close>, and a run of
  \<open>prepareTxOps\<close> that returns a TxOps. Then the returned entry is the projected one with
  the latest metadata in its metadata slot (flag, value and the other slots unchanged),
  where the latest metadata is the metadata of the staged value when the staging buffer
  holds the key, and what the state database returns otherwise: nil when the database
  has none.
\<close>

theorem prepareTxOps_only_upsert:
  assumes "rangeOrder cks (projection cfg Serialize rwset)"
    and "projection cfg Serialize rwset ck = Some e"
    and "isOnlyUpsert e"
    and "snd (prepareTxOps cfg Serialize cks rwset pu db) = Inr txops'"
  shows "\<exists>latestMetadata.
           txops' ck = Some (e\<lparr>metadata := latestMetadata\<rparr>) \<and>
           retrieveLatestMetadata (ns ck) (coll ck) (key ck) pu db = Inr latestMetadata \<and>
           (case (if coll ck = [] then publicUpdates pu (ns ck) (key ck)
                  else hashUpdates pu (ns ck) (coll ck) (key ck)) of
              Some vv \<Rightarrow> latestMetadata = Metadata vv
            | None \<Rightarrow>
                (if coll ck = [] then GetStateMetadata db (ns ck) (key ck)
                 else GetPrivateDataMetadataByHash db (ns ck) (coll ck) (key ck))
                = Inr latestMetadata)"
proof -
  from assms(1) have d: "distinct cks" and s: "set cks = dom (projection cfg Serialize rwset)"
    by (simp_all add: rangeOrder_def)
  from s assms(2) have m: "ck \<in> set cks" by auto
  have c1: "\<not> isDelete e" using assms(3) by (rule isOnlyUpsert_not_isDelete)
  have c2: "\<not> isUpsertAndMetadataUpdate e"
    using assms(3) by (rule isOnlyUpsert_not_isUpsertAndMetadataUpdate)
  from assms(4) have r: "snd (mergeLoop pu db cks (projection cfg Serialize rwset)) = Inr txops'"
    by (simp add: prepareTxOps_def)
  from mergeLoop_entry[OF d m assms(2) r] c1 c2 assms(3)
  obtain md where md: "retrieveLatestMetadata (ns ck) (coll ck) (key ck) pu db = Inr md"
    "txops' ck = Some (e\<lparr>metadata := md\<rparr>)"
    by auto
  from md(1) have "case (if coll ck = [] then publicUpdates pu (ns ck) (key ck)
                  else hashUpdates pu (ns ck) (coll ck) (key ck)) of
              Some vv \<Rightarrow> md = Metadata vv
            | None \<Rightarrow>
                (if coll ck = [] then GetStateMetadata db (ns ck) (key ck)
                 else GetPrivateDataMetadataByHash db (ns ck) (coll ck) (key ck))
                = Inr md"
    by (auto simp add: retrieveLatestMetadata_def split: option.splits if_splits)
  with md show ?thesis by blast
qed

theorem prepareTxOps_only_upsert_witness:
  "(\<exists>t. snd (prepareTxOps plainConfig sampleSerialize [ck_n_k]
            (publicRwSet [] [\<lparr>wKey = ''k'', wIsDelete = False, wValue = Some ''v1''\<rparr>] [])
            noUpdates sampleDB) = Inr t \<and>
        t ck_n_k = Some \<lparr>flag = upsertVal, value = Some ''v1'', metadata = Some ''M_old'',
                          deps = None, depSnapshot = 0\<rparr>) \<and>
   (\<exists>t. snd (prepareTxOps plainConfig sampleSerialize [ck_n_k]
            (publicRwSet [] [\<lparr>wKey = ''k'', wIsDelete = False, wValue = Some ''v1''\<rparr>] [])
            noUpdates emptyDB) = Inr t \<and>
        t ck_n_k = Some \<lparr>flag = upsertVal, value = Some ''v1'', metadata = None,
                          deps = None, depSnapshot = 0\<rparr>)"
proof -
  let ?rw = "publicRwSet [] [\<lparr>wKey = ''k'', wIsDelete = False, wValue = Some ''v1''\<rparr>] []"
  let ?e = "\<lparr>flag = upsertVal, value = Some ''v1'', metadata = None, deps = None,
             depSnapshot = 0\<rparr>"
  have p: "projection plainConfig sampleSerialize ?rw = [ck_n_k \<mapsto> ?e]"
    by (simp add: projection_defs sample_defs flag_defs)
  have h1: "rangeOrder [ck_n_k] (projection plainConfig sampleSerialize ?rw)"
    by (simp add: p rangeOrder_def)
  have h2: "projection plainConfig sampleSerialize ?rw ck_n_k = Some ?e" by (simp add: p)
  have h3: "isOnlyUpsert ?e" by (simp add: flag_defs)
  obtain t1 where r1: "snd (prepareTxOps plainConfig sampleSerialize [ck_n_k] ?rw noUpdates sampleDB)
      = Inr t1"
    by (simp add: prepareTxOps_def p) (simp add: sample_defs flag_defs retrieveLatestMetadata_def)
  obtain t2 where r2: "snd (prepareTxOps plainConfig sampleSerialize [ck_n_k] ?rw noUpdates emptyDB)
      = Inr t2"
    by (simp add: prepareTxOps_def p) (simp add: sample_defs flag_defs retrieveLatestMetadata_def)
  have s1: "retrieveLatestMetadata (ns ck_n_k) (coll ck_n_k) (key ck_n_k) noUpdates sampleDB
      = Inr (Some ''M_old'')"
    by (simp add: sample_defs retrieveLatestMetadata_def)
  have s2: "retrieveLatestMetadata (ns ck_n_k) (coll ck_n_k) (key ck_n_k) noUpdates emptyDB
      = Inr None"
    by (simp add: sample_defs retrieveLatestMetadata_def)
  from prepareTxOps_only_upsert[OF h1 h2 h3 r1] s1
  have "t1 ck_n_k = Some (?e\<lparr>metadata := Some ''M_old''\<rparr>)" by auto
  moreover from prepareTxOps_only_upsert[OF h1 h2 h3 r2] s2
  have "t2 ck_n_k = Some (?e\<lparr>metadata := None\<rparr>)" by auto
  ultimately show ?thesis using r1 r2 by simp
qed

text \<open>
  C5. For an entry of the projected TxOps with the \<open>keyDelete\<close> bit set, or with
  \<open>upsertVal\<close> together with a metadata bit, \<open>prepareTxOps\<close> calls neither
  \<open>retrieveLatestState\<close> nor \<open>retrieveLatestMetadata\<close> for its key, whatever the outcome of
  the run, and a returned TxOps holds the entry as it was projected.
\<close>

theorem prepareTxOps_delete_or_full_untouched:
  assumes "rangeOrder cks (projection cfg Serialize rwset)"
    and "projection cfg Serialize rwset ck = Some e"
    and "isDelete e \<or> isUpsertAndMetadataUpdate e"
  shows "LatestState ck \<notin> set (fst (prepareTxOps cfg Serialize cks rwset pu db)) \<and>
         LatestMetadata ck \<notin> set (fst (prepareTxOps cfg Serialize cks rwset pu db)) \<and>
         (\<forall>txops'. snd (prepareTxOps cfg Serialize cks rwset pu db) = Inr txops' \<longrightarrow>
                    txops' ck = Some e)"
proof -
  from assms(1) have d: "distinct cks" and s: "set cks = dom (projection cfg Serialize rwset)"
    by (simp_all add: rangeOrder_def)
  from s assms(2) have m: "ck \<in> set cks" by auto
  have calls: "c \<notin> set (fst (prepareTxOps cfg Serialize cks rwset pu db))"
    if c: "c = LatestState ck \<or> c = LatestMetadata ck" for c
  proof
    assume "c \<in> set (fst (prepareTxOps cfg Serialize cks rwset pu db))"
    then have "c \<in> set (fst (mergeLoop pu db cks (projection cfg Serialize rwset)))"
      by (simp add: prepareTxOps_def)
    from mergeLoop_calls[OF d this] obtain ck' e' where
      h: "projection cfg Serialize rwset ck' = Some e'" "\<not> isDelete e'"
         "\<not> isUpsertAndMetadataUpdate e'" "c = LatestMetadata ck' \<or> c = LatestState ck'"
      by blast
    from h(4) c have "ck' = ck" by auto
    with h(1) assms(2) have "e' = e" by simp
    with h(2,3) assms(3) show False by simp
  qed
  have "txops' ck = Some e"
    if "snd (prepareTxOps cfg Serialize cks rwset pu db) = Inr txops'" for txops'
  proof -
    from that have r: "snd (mergeLoop pu db cks (projection cfg Serialize rwset)) = Inr txops'"
      by (simp add: prepareTxOps_def)
    from mergeLoop_entry[OF d m assms(2) r] assms(3) show ?thesis by simp
  qed
  with calls show ?thesis by blast
qed

theorem prepareTxOps_delete_or_full_untouched_witness:
  "fst (prepareTxOps plainConfig sampleSerialize [ck_n_k]
          (publicRwSet [] [\<lparr>wKey = ''k'', wIsDelete = True, wValue = None\<rparr>]
             [\<lparr>mKey = ''k'', mEntries = Some [\<lparr>eName = ''a'', eValue = Some ''b''\<rparr>]\<rparr>])
          noUpdates sampleDB) = [] \<and>
   (\<exists>t. snd (prepareTxOps plainConfig sampleSerialize [ck_n_k]
          (publicRwSet [] [\<lparr>wKey = ''k'', wIsDelete = True, wValue = None\<rparr>]
             [\<lparr>mKey = ''k'', mEntries = Some [\<lparr>eName = ''a'', eValue = Some ''b''\<rparr>]\<rparr>])
          noUpdates sampleDB) = Inr t \<and>
        t ck_n_k = Some \<lparr>flag = keyDelete OR metadataUpdate, value = None, metadata = Some ''ab'',
                          deps = None, depSnapshot = 0\<rparr>)"
proof -
  let ?rw = "publicRwSet [] [\<lparr>wKey = ''k'', wIsDelete = True, wValue = None\<rparr>]
             [\<lparr>mKey = ''k'', mEntries = Some [\<lparr>eName = ''a'', eValue = Some ''b''\<rparr>]\<rparr>]"
  let ?e = "\<lparr>flag = keyDelete OR metadataUpdate, value = None, metadata = Some ''ab'',
             deps = None, depSnapshot = 0\<rparr>"
  have p: "projection plainConfig sampleSerialize ?rw = [ck_n_k \<mapsto> ?e]"
    by (simp add: projection_defs sample_defs flag_defs)
  have h1: "rangeOrder [ck_n_k] (projection plainConfig sampleSerialize ?rw)"
    by (simp add: p rangeOrder_def)
  have h2: "projection plainConfig sampleSerialize ?rw ck_n_k = Some ?e" by (simp add: p)
  have h3: "isDelete ?e \<or> isUpsertAndMetadataUpdate ?e" by (simp add: flag_defs)
  have c: "fst (prepareTxOps plainConfig sampleSerialize [ck_n_k] ?rw noUpdates sampleDB) = []"
    by (simp add: prepareTxOps_def p) (simp add: flag_defs)
  obtain t1 where r1: "snd (prepareTxOps plainConfig sampleSerialize [ck_n_k] ?rw noUpdates sampleDB)
      = Inr t1"
    by (simp add: prepareTxOps_def p) (simp add: flag_defs)
  from prepareTxOps_delete_or_full_untouched[OF h1 h2 h3, of noUpdates sampleDB] r1
  have "t1 ck_n_k = Some ?e" by blast
  with c r1 show ?thesis by simp
qed

section \<open>The projection\<close>

text \<open>
  C1. The primitives add the flag constant (\<open>keyops.flag += upsertVal\<close>), they do not OR
  it. For every key and every pair of values, \<open>upsert(k, v1)\<close> followed by
  \<open>upsert(k, v2)\<close> on an empty TxOps leaves the value \<open>v2\<close> under \<open>k\<close>, but the flag is
  \<open>1 + 1 = 2\<close>, which is \<open>metadataUpdate\<close>: the \<open>upsertVal\<close> bit is clear. In
  \<open>prepareTxOps\<close> such an entry takes the path of a change of metadata only: for a
  read-write set that writes the key \<open>k\<close> twice, with no state for \<open>k\<close> in the staging
  buffer and the database, the returned TxOps has no entry for \<open>k\<close>.
\<close>

theorem upsert_twice_adds_flag:
  "upsert k v2 (upsert k v1 Map.empty) k =
     Some \<lparr>flag = metadataUpdate, value = v2, metadata = None, deps = None, depSnapshot = 0\<rparr>
   \<and> metadataUpdate \<noteq> upsertVal
   \<and> metadataUpdate AND upsertVal = 0
   \<and> projection plainConfig sampleSerialize
         (publicRwSet [] [\<lparr>wKey = ''k'', wIsDelete = False, wValue = Some ''v1''\<rparr>,
                          \<lparr>wKey = ''k'', wIsDelete = False, wValue = Some ''v2''\<rparr>] [])
       = [ck_n_k \<mapsto> \<lparr>flag = metadataUpdate, value = Some ''v2'', metadata = None, deps = None,
                        depSnapshot = 0\<rparr>]
   \<and> prepareTxOps plainConfig sampleSerialize [ck_n_k]
         (publicRwSet [] [\<lparr>wKey = ''k'', wIsDelete = False, wValue = Some ''v1''\<rparr>,
                          \<lparr>wKey = ''k'', wIsDelete = False, wValue = Some ''v2''\<rparr>] [])
         noUpdates emptyDB
       = ([LatestState ck_n_k], Inr Map.empty)"
proof -
  let ?rw = "publicRwSet [] [\<lparr>wKey = ''k'', wIsDelete = False, wValue = Some ''v1''\<rparr>,
                            \<lparr>wKey = ''k'', wIsDelete = False, wValue = Some ''v2''\<rparr>] []"
  have 1: "upsert k v2 (upsert k v1 Map.empty) k =
     Some \<lparr>flag = metadataUpdate, value = v2, metadata = None, deps = None, depSnapshot = 0\<rparr>"
    by (simp add: upsert_absent upsert_present keyOps_zero_def upsertVal_def metadataUpdate_def)
  have 2: "metadataUpdate \<noteq> upsertVal" "metadataUpdate AND upsertVal = 0"
    by (simp_all add: upsertVal_def metadataUpdate_def)
  have 3: "projection plainConfig sampleSerialize ?rw
       = [ck_n_k \<mapsto> \<lparr>flag = metadataUpdate, value = Some ''v2'', metadata = None, deps = None,
                        depSnapshot = 0\<rparr>]"
    by (simp add: projection_defs sample_defs flag_defs)
  have 4: "prepareTxOps plainConfig sampleSerialize [ck_n_k] ?rw noUpdates emptyDB
       = ([LatestState ck_n_k], Inr Map.empty)"
    by (simp add: prepareTxOps_def 3) (simp add: sample_defs flag_defs retrieveLatestState_def)
  from 1 2 3 4 show ?thesis by simp
qed

text \<open>
  C2. A metadata write whose entries the serializer rejects: \<open>applyMetadata\<close> returns the
  serializer's error, but the loop of \<open>applyTxRwset\<close> drops what \<open>applyMetadata\<close> returns
  and \<open>applyTxRwset\<close> returns nil, and \<open>prepareTxOps\<close> does not look at what
  \<open>applyTxRwset\<close> returns. On the read-write set with the one metadata write below,
  \<open>prepareTxOps\<close> returns the empty TxOps and no error.
\<close>

theorem serialize_error_is_dropped:
  "fst (applyMetadata failingSerialize ''n'' []
          \<lparr>mKey = ''k'', mEntries = Some [\<lparr>eName = ''a'', eValue = Some ''b''\<rparr>]\<rparr> Map.empty)
     = Some (Error ''marshal'') \<and>
   fst (applyTxRwset plainConfig failingSerialize
          (publicRwSet [] [] [\<lparr>mKey = ''k'', mEntries = Some [\<lparr>eName = ''a'', eValue = Some ''b''\<rparr>]\<rparr>])
          Map.empty) = None \<and>
   rangeOrder [] (projection plainConfig failingSerialize
          (publicRwSet [] [] [\<lparr>mKey = ''k'', mEntries = Some [\<lparr>eName = ''a'', eValue = Some ''b''\<rparr>]\<rparr>])) \<and>
   prepareTxOps plainConfig failingSerialize []
          (publicRwSet [] [] [\<lparr>mKey = ''k'', mEntries = Some [\<lparr>eName = ''a'', eValue = Some ''b''\<rparr>]\<rparr>])
          noUpdates emptyDB = ([], Inr Map.empty)"
  by (simp add: prepareTxOps_def rangeOrder_def projection_defs sample_defs)


lemma getOrCreateKeyEntry_snd:
  "snd (getOrCreateKeyEntry k txops) = txops(k \<mapsto> fst (getOrCreateKeyEntry k txops))"
  by (auto simp add: getOrCreateKeyEntry_def split: option.splits)

lemma txOps_metadataDelete_entry:
  "txOps_metadataDelete k txops =
     txops(k \<mapsto> (fst (getOrCreateKeyEntry k txops))
                  \<lparr>flag := flag (fst (getOrCreateKeyEntry k txops)) + metadataDelete\<rparr>)"
  by (simp add: txOps_metadataDelete_def case_prod_beta getOrCreateKeyEntry_snd)

lemma txOps_metadataUpdate_entry:
  "txOps_metadataUpdate k md txops =
     txops(k \<mapsto> (fst (getOrCreateKeyEntry k txops))
                  \<lparr>flag := flag (fst (getOrCreateKeyEntry k txops)) + metadataUpdate,
                   metadata := md\<rparr>)"
  by (simp add: txOps_metadataUpdate_def case_prod_beta getOrCreateKeyEntry_snd)



text \<open>
  C7. The marker \<open>a_b_prov\<close> with value \<open>y_z_\<close> is recorded under \<open>a\<close>, the first
  \<open>_\<close>-separated segment of its key, and not under \<open>a_b\<close>: the write of \<open>a_b\<close> in the same
  namespace is projected with an empty list of deps.
\<close>

theorem marker_with_underscore_loses_deps:
  "collectDeps [\<lparr>wKey = ''a_b_prov'', wIsDelete = False, wValue = Some ''y_z_''\<rparr>,
                \<lparr>wKey = ''a_b'', wIsDelete = False, wValue = Some ''v''\<rparr>] ''a_b'' = None \<and>
   collectDeps [\<lparr>wKey = ''a_b_prov'', wIsDelete = False, wValue = Some ''y_z_''\<rparr>,
                \<lparr>wKey = ''a_b'', wIsDelete = False, wValue = Some ''v''\<rparr>] ''a''
     = Some [''y'', ''z''] \<and>
   projection lineageConfig sampleSerialize
     (publicRwSet [] [\<lparr>wKey = ''a_b_prov'', wIsDelete = False, wValue = Some ''y_z_''\<rparr>,
                      \<lparr>wKey = ''a_b'', wIsDelete = False, wValue = Some ''v''\<rparr>] [])
     \<lparr>ns = ''n'', coll = [], key = ''a_b''\<rparr>
     = Some \<lparr>flag = upsertVal, value = Some ''v'', metadata = None, deps = Some [],
             depSnapshot = MaxUint64\<rparr>"
  by (simp add: projection_defs sample_defs flag_defs)

section \<open>Snapshots, dependencies and the keys of the projection\<close>

lemma depSnapshotOfReads_snoc:
  "depSnapshotOfReads cfg (reads @ [r]) = readStep cfg (depSnapshotOfReads cfg reads) r"
  by (simp add: depSnapshotOfReads_def)

lemma depSnapshotOfReads_noOCC:
  "\<not> IsOCC cfg \<Longrightarrow> depSnapshotOfReads cfg reads = MaxUint64"
  by (induction reads rule: rev_induct) (simp_all add: depSnapshotOfReads_def readStep_def)

lemma depSnapshotOfReads_last:
  "depSnapshotOfReads cfg reads =
     (if IsOCC cfg \<and> reads \<noteq> []
      then (case rVersion (last reads) of None \<Rightarrow> MaxUint64 | Some v \<Rightarrow> BlockNum v)
      else MaxUint64)"
proof (cases reads rule: rev_cases)
  case Nil
  then show ?thesis by (simp add: depSnapshotOfReads_def)
next
  case (snoc rs r)
  then show ?thesis
    by (simp add: depSnapshotOfReads_snoc depSnapshotOfReads_noOCC readStep_def)
qed

lemma getOrCreateKeyEntry_other:
  "k' \<noteq> k \<Longrightarrow> snd (getOrCreateKeyEntry k t) k' = t k'"
  by (simp add: getOrCreateKeyEntry_def split: option.splits)

lemma upsert_entry:
  "upsert k v t = t(k \<mapsto> (fst (getOrCreateKeyEntry k t))
       \<lparr>flag := flag (fst (getOrCreateKeyEntry k t)) + upsertVal, value := v\<rparr>)"
  by (simp add: upsert_def case_prod_beta getOrCreateKeyEntry_snd)

lemma delete_entry:
  "delete k t = t(k \<mapsto> (fst (getOrCreateKeyEntry k t))
       \<lparr>flag := flag (fst (getOrCreateKeyEntry k t)) + keyDelete\<rparr>)"
  by (simp add: delete_def case_prod_beta getOrCreateKeyEntry_snd)

lemma upsertWithDep_entry:
  "upsertWithDep k v ds snap t = t(k \<mapsto> (fst (getOrCreateKeyEntry k t))
       \<lparr>flag := flag (fst (getOrCreateKeyEntry k t)) + upsertVal, value := v,
        deps := ds, depSnapshot := snap\<rparr>)"
  by (simp add: upsertWithDep_def case_prod_beta getOrCreateKeyEntry_snd)

lemma deleteWithDep_entry:
  "deleteWithDep k ds snap t = t(k \<mapsto> (fst (getOrCreateKeyEntry k t))
       \<lparr>flag := flag (fst (getOrCreateKeyEntry k t)) + keyDelete,
        deps := ds, depSnapshot := snap\<rparr>)"
  by (simp add: deleteWithDep_def case_prod_beta getOrCreateKeyEntry_snd)

lemmas primitive_entry =
  upsert_entry delete_entry upsertWithDep_entry deleteWithDep_entry
  txOps_metadataUpdate_entry txOps_metadataDelete_entry

lemma noDeps_fst: "noDeps t \<Longrightarrow> deps (fst (getOrCreateKeyEntry k t)) = None \<and>
    depSnapshot (fst (getOrCreateKeyEntry k t)) = 0"
  by (auto simp add: noDeps_def getOrCreateKeyEntry_def keyOps_zero_def split: option.splits)

lemma noDeps_applyKVWrite: "noDeps t \<Longrightarrow> noDeps (applyKVWrite n c w t)"
  using noDeps_fst[of t]
  by (auto simp add: applyKVWrite_def primitive_entry noDeps_def)

lemma noDeps_applyMetadata: "noDeps t \<Longrightarrow> noDeps (snd (applyMetadata ser n c mw t))"
  using noDeps_fst[of t]
  by (auto simp add: applyMetadata_def primitive_entry noDeps_def split: option.splits sum.splits)

lemma foldl_invariant:
  "P a \<Longrightarrow> (\<And>b x. P b \<Longrightarrow> P (f b x)) \<Longrightarrow> P (foldl f a xs)"
  by (induction xs arbitrary: a) simp_all

lemma noDeps_applyWrites:
  "\<not> LineageSupported cfg \<Longrightarrow> noDeps t \<Longrightarrow> noDeps (applyWrites cfg n kv t)"
  by (simp add: applyWrites_def foldl_invariant[where P = noDeps] noDeps_applyKVWrite)

lemma noDeps_applyMetadataWrites:
  "noDeps t \<Longrightarrow> noDeps (applyMetadataWrites ser n c mws t)"
  by (simp add: applyMetadataWrites_def foldl_invariant[where P = noDeps] noDeps_applyMetadata)

lemma noDeps_applyCollHashedRwSet:
  "noDeps t \<Longrightarrow> noDeps (applyCollHashedRwSet ser n t chr)"
  by (simp add: applyCollHashedRwSet_def noDeps_applyMetadataWrites
        foldl_invariant[where P = noDeps] noDeps_applyKVWrite)

lemma noDeps_applyNsRwSet:
  "\<not> LineageSupported cfg \<Longrightarrow> noDeps t \<Longrightarrow> noDeps (applyNsRwSet cfg ser t nsr)"
  by (simp add: applyNsRwSet_def foldl_invariant[where P = noDeps] noDeps_applyCollHashedRwSet
        noDeps_applyMetadataWrites noDeps_applyWrites)

lemma noDeps_projection:
  "\<not> LineageSupported cfg \<Longrightarrow> noDeps (projection cfg ser rwset)"
proof -
  assume a: "\<not> LineageSupported cfg"
  have "noDeps Map.empty" by (simp add: noDeps_def)
  then have "noDeps (foldl (applyNsRwSet cfg ser) Map.empty (NsRwSets rwset))"
    using a by (simp add: foldl_invariant[where P = noDeps] noDeps_applyNsRwSet)
  then show ?thesis by (simp add: projection_def applyTxRwset_def)
qed

lemma mergeLoop_origin:
  "snd (mergeLoop pu db cks t) = Inr t' \<Longrightarrow> t' ck = Some e' \<Longrightarrow>
   \<exists>e. t ck = Some e \<and> flag e' = flag e \<and> deps e' = deps e \<and> depSnapshot e' = depSnapshot e"
proof (induction cks arbitrary: t)
  case Nil
  then show ?case by simp
next
  case (Cons a cks)
  note IH = Cons.IH[OF _ Cons.prems(2)]
  show ?case
  proof (cases rule: mergeLoop_step[of pu db a cks t])
    case skip
    with Cons.prems(1) have "snd (mergeLoop pu db cks t) = Inr t'" by simp
    from IH[OF this] show ?thesis .
  next
    case (mdErr e err)
    with Cons.prems(1) show ?thesis by simp
  next
    case (md e m)
    with Cons.prems(1)
    have "snd (mergeLoop pu db cks (t(a \<mapsto> e\<lparr>metadata := m\<rparr>))) = Inr t'" by simp
    from IH[OF this] md(1) show ?thesis by (cases "ck = a") auto
  next
    case (stErr e err)
    with Cons.prems(1) show ?thesis by simp
  next
    case (stNone e)
    with Cons.prems(1) have "snd (mergeLoop pu db cks (t(a := None))) = Inr t'" by simp
    from IH[OF this] show ?thesis by (cases "ck = a") auto
  next
    case (stSome e vv)
    with Cons.prems(1)
    have "snd (mergeLoop pu db cks (t(a \<mapsto> e\<lparr>value := Value vv\<rparr>))) = Inr t'" by simp
    from IH[OF this] stSome(1) show ?thesis by (cases "ck = a") auto
  qed
qed

lemma lineage_writes_entry:
  "w \<in> set ws \<Longrightarrow> \<not> HasSuffix (wKey w) ''_prov'' \<Longrightarrow>
   \<exists>e. foldl (writeWithDepStep n ds snap) t ws \<lparr>ns = n, coll = [], key = wKey w\<rparr> = Some e \<and>
       depSnapshot e = snap \<and>
       deps e = Some (case ds (wKey w) of Some d \<Rightarrow> d | None \<Rightarrow> [])"
proof (induction ws rule: rev_induct)
  case Nil
  then show ?case by simp
next
  case (snoc x xs)
  show ?case
  proof (cases "wKey x = wKey w")
    case True
    with snoc.prems(2) show ?thesis
      by (simp add: writeWithDepStep_def applyKVWriteWithDep_def primitive_entry)
  next
    case False
    with snoc.prems(1) have "w \<in> set xs" by auto
    from snoc.IH[OF this snoc.prems(2)] False show ?thesis
      by (simp add: writeWithDepStep_def applyKVWriteWithDep_def primitive_entry)
  qed
qed

lemma dom_applyKVWrite:
  "dom (applyKVWrite n c w t) = insert \<lparr>ns = n, coll = c, key = wKey w\<rparr> (dom t)"
  by (simp add: applyKVWrite_def primitive_entry)

lemma dom_applyKVWriteWithDep:
  "dom (applyKVWriteWithDep n c w ds snap t) = insert \<lparr>ns = n, coll = c, key = wKey w\<rparr> (dom t)"
  by (simp add: applyKVWriteWithDep_def primitive_entry)

lemma dom_applyMetadata_upper:
  "dom (snd (applyMetadata ser n c mw t)) \<subseteq> insert \<lparr>ns = n, coll = c, key = mKey mw\<rparr> (dom t)"
  by (auto simp add: applyMetadata_def primitive_entry split: option.splits sum.splits)


lemma foldl_dom_upper:
  "(\<And>b x. dom (f b x) \<subseteq> dom b \<union> K x) \<Longrightarrow> dom (foldl f a xs) \<subseteq> dom a \<union> (\<Union>x\<in>set xs. K x)"
proof (induction xs arbitrary: a)
  case Nil
  then show ?case by simp
next
  case (Cons x xs)
  from Cons.IH[OF Cons.prems, of "f a x"] Cons.prems[of a x] show ?case by auto
qed



lemma dom_applyMetadataWrites_upper:
  "dom (applyMetadataWrites ser n c mws t)
     \<subseteq> dom t \<union> (\<lambda>mw. \<lparr>ns = n, coll = c, key = mKey mw\<rparr>) ` set mws"
proof -
  have "dom (applyMetadataWrites ser n c mws t)
      \<subseteq> dom t \<union> (\<Union>mw\<in>set mws. {\<lparr>ns = n, coll = c, key = mKey mw\<rparr>})"
    unfolding applyMetadataWrites_def
    by (rule foldl_dom_upper) (use dom_applyMetadata_upper in auto)
  then show ?thesis by auto
qed

lemma dom_hashedWrites_upper:
  "dom (foldl (\<lambda>t hw. applyKVWrite n c (kvWriteOfHash hw) t) t hws)
     \<subseteq> dom t \<union> (\<lambda>hw. \<lparr>ns = n, coll = c, key = string_of_bytes (hKeyHash hw)\<rparr>) ` set hws"
proof -
  have "dom (foldl (\<lambda>t hw. applyKVWrite n c (kvWriteOfHash hw) t) t hws)
      \<subseteq> dom t \<union> (\<Union>hw\<in>set hws. {\<lparr>ns = n, coll = c, key = string_of_bytes (hKeyHash hw)\<rparr>})"
    by (rule foldl_dom_upper) (simp add: dom_applyKVWrite kvWriteOfHash_def)
  then show ?thesis by auto
qed

lemma dom_applyCollHashedRwSet_upper:
  "dom (applyCollHashedRwSet ser n t chr) \<subseteq> dom t \<union> set (collHashedKeys n chr)"
proof -
  let ?c = "CollectionName chr"
  let ?t1 = "foldl (\<lambda>t hw. applyKVWrite n ?c (kvWriteOfHash hw) t) t
               (HashedWrites (HashedRwSet chr))"
  let ?mws = "map kvMetadataWriteOfHash (HashedMetadataWrites (HashedRwSet chr))"
  have 1: "dom ?t1 \<subseteq> dom t \<union>
      (\<lambda>hw. \<lparr>ns = n, coll = ?c, key = string_of_bytes (hKeyHash hw)\<rparr>) `
        set (HashedWrites (HashedRwSet chr))"
    by (rule dom_hashedWrites_upper)
  have 2: "dom (applyMetadataWrites ser n ?c ?mws ?t1) \<subseteq> dom ?t1 \<union>
      (\<lambda>mw. \<lparr>ns = n, coll = ?c, key = mKey mw\<rparr>) ` set ?mws"
    by (rule dom_applyMetadataWrites_upper)
  have 3: "(\<lambda>mw. \<lparr>ns = n, coll = ?c, key = mKey mw\<rparr>) ` set ?mws =
      (\<lambda>mw. \<lparr>ns = n, coll = ?c, key = string_of_bytes (mhKeyHash mw)\<rparr>) `
        set (HashedMetadataWrites (HashedRwSet chr))"
    by (simp add: image_image kvMetadataWriteOfHash_def)
  have 4: "set (collHashedKeys n chr) =
      (\<lambda>hw. \<lparr>ns = n, coll = ?c, key = string_of_bytes (hKeyHash hw)\<rparr>) `
        set (HashedWrites (HashedRwSet chr)) \<union>
      (\<lambda>mw. \<lparr>ns = n, coll = ?c, key = string_of_bytes (mhKeyHash mw)\<rparr>) `
        set (HashedMetadataWrites (HashedRwSet chr))"
    by (simp add: collHashedKeys_def)
  have 5: "applyCollHashedRwSet ser n t chr = applyMetadataWrites ser n ?c ?mws ?t1"
    by (simp add: applyCollHashedRwSet_def)
  from 1 2 show ?thesis unfolding 3 4 5 by blast
qed

lemma dom_lineage_writes_upper:
  "dom (foldl (writeWithDepStep n ds snap) t ws)
     \<subseteq> dom t \<union> {ck. ck \<in> (\<lambda>w. \<lparr>ns = n, coll = [], key = wKey w\<rparr>) ` set ws \<and>
                     \<not> HasSuffix (key ck) ''_prov''}"
proof -
  have "dom (foldl (writeWithDepStep n ds snap) t ws)
      \<subseteq> dom t \<union> (\<Union>w\<in>set ws. if HasSuffix (wKey w) ''_prov'' then {}
                                 else {\<lparr>ns = n, coll = [], key = wKey w\<rparr>})"
    by (rule foldl_dom_upper) (simp add: writeWithDepStep_def dom_applyKVWriteWithDep)
  then show ?thesis by (auto split: if_splits)
qed

lemma dom_applyNsRwSet_lineage_upper:
  assumes "LineageSupported cfg"
  shows "dom (applyNsRwSet cfg ser t nsr)
     \<subseteq> dom t \<union> {ck. ck \<in> set (publicWriteKeys nsr) \<and> \<not> HasSuffix (key ck) ''_prov''}
        \<union> set (publicMetadataKeys nsr) \<union> set (hashedKeys nsr)"
proof -
  let ?t1 = "applyWrites cfg (NameSpace nsr) (KvRwSet nsr) t"
  let ?t2 = "applyMetadataWrites ser (NameSpace nsr) [] (MetadataWrites (KvRwSet nsr)) ?t1"
  have 1: "dom ?t1 \<subseteq> dom t \<union> {ck. ck \<in> set (publicWriteKeys nsr) \<and>
      \<not> HasSuffix (key ck) ''_prov''}"
    using assms dom_lineage_writes_upper[of "NameSpace nsr" _ _ t "Writes (KvRwSet nsr)"]
    by (simp add: applyWrites_def publicWriteKeys_def)
  have 2: "dom ?t2 \<subseteq> dom ?t1 \<union> set (publicMetadataKeys nsr)"
    using dom_applyMetadataWrites_upper[of ser "NameSpace nsr" "[]" _ ?t1]
    by (simp add: publicMetadataKeys_def)
  have "dom (foldl (applyCollHashedRwSet ser (NameSpace nsr)) ?t2 (CollHashedRwSets nsr))
      \<subseteq> dom ?t2 \<union> (\<Union>chr\<in>set (CollHashedRwSets nsr). set (collHashedKeys (NameSpace nsr) chr))"
    by (rule foldl_dom_upper) (rule dom_applyCollHashedRwSet_upper)
  then have 3: "dom (applyNsRwSet cfg ser t nsr) \<subseteq> dom ?t2 \<union> set (hashedKeys nsr)"
    by (simp add: applyNsRwSet_def hashedKeys_def)
  from 1 2 3 show ?thesis by blast
qed

lemma dom_projection_lineage_upper:
  assumes "LineageSupported cfg"
  shows "dom (projection cfg ser rwset)
     \<subseteq> (\<Union>nsr\<in>set (NsRwSets rwset).
          {ck. ck \<in> set (publicWriteKeys nsr) \<and> \<not> HasSuffix (key ck) ''_prov''}
          \<union> set (publicMetadataKeys nsr) \<union> set (hashedKeys nsr))"
proof -
  have "dom (foldl (applyNsRwSet cfg ser) Map.empty (NsRwSets rwset))
     \<subseteq> dom (Map.empty :: txOps) \<union> (\<Union>nsr\<in>set (NsRwSets rwset).
          {ck. ck \<in> set (publicWriteKeys nsr) \<and> \<not> HasSuffix (key ck) ''_prov''}
          \<union> set (publicMetadataKeys nsr) \<union> set (hashedKeys nsr))"
    by (rule foldl_dom_upper) (use dom_applyNsRwSet_lineage_upper[OF assms] in blast)
  then show ?thesis by (simp add: projection_def applyTxRwset_def)
qed








text \<open>
  C9. The snapshot of a namespace starts at \<open>MaxUint64\<close>. With \<open>IsOCC\<close> every read sets
  it, to the block number of its version or to \<open>MaxUint64\<close> when it has none, so after the
  loop it is what the last read set; without \<open>IsOCC\<close> it stays \<open>MaxUint64\<close> whatever the
  reads. In provenance mode every write that is not a marker leaves an entry with that
  snapshot. Without provenance mode the writes go through \<open>applyKVWrite\<close>, and every entry
  of the projection, and of the TxOps that \<open>prepareTxOps\<close> returns, has nil deps and
  snapshot 0.
\<close>

theorem depSnapshot_derivation:
  "depSnapshotOfReads cfg [] = MaxUint64 \<and>
   (IsOCC cfg \<longrightarrow>
      depSnapshotOfReads cfg (reads @ [kvRead]) =
        (case rVersion kvRead of None \<Rightarrow> MaxUint64 | Some v \<Rightarrow> BlockNum v)) \<and>
   (\<not> IsOCC cfg \<longrightarrow> depSnapshotOfReads cfg reads = MaxUint64) \<and>
   (LineageSupported cfg \<longrightarrow>
      (\<forall>kvWrite \<in> set (Writes kv). \<not> HasSuffix (wKey kvWrite) ''_prov'' \<longrightarrow>
         (\<exists>e. applyWrites cfg n kv txops \<lparr>ns = n, coll = [], key = wKey kvWrite\<rparr> = Some e \<and>
              depSnapshot e = depSnapshotOfReads cfg (Reads kv)))) \<and>
   (\<not> LineageSupported cfg \<longrightarrow>
      applyWrites cfg n kv txops =
        foldl (\<lambda>t kvWrite. applyKVWrite n [] kvWrite t) txops (Writes kv) \<and>
      (\<forall>ck e. projection cfg Serialize rwset ck = Some e \<longrightarrow>
         deps e = None \<and> depSnapshot e = 0) \<and>
      (\<forall>cks pu db txops' ck e.
         snd (prepareTxOps cfg Serialize cks rwset pu db) = Inr txops' \<and> txops' ck = Some e \<longrightarrow>
         deps e = None \<and> depSnapshot e = 0))"
proof -
  have a: "depSnapshotOfReads cfg [] = MaxUint64" by (simp add: depSnapshotOfReads_def)
  have b: "IsOCC cfg \<longrightarrow> depSnapshotOfReads cfg (reads @ [kvRead]) =
        (case rVersion kvRead of None \<Rightarrow> MaxUint64 | Some v \<Rightarrow> BlockNum v)"
    by (simp add: depSnapshotOfReads_snoc readStep_def)
  have c: "\<not> IsOCC cfg \<longrightarrow> depSnapshotOfReads cfg reads = MaxUint64"
    by (simp add: depSnapshotOfReads_noOCC)
  have d: "LineageSupported cfg \<longrightarrow>
      (\<forall>kvWrite \<in> set (Writes kv). \<not> HasSuffix (wKey kvWrite) ''_prov'' \<longrightarrow>
         (\<exists>e. applyWrites cfg n kv txops \<lparr>ns = n, coll = [], key = wKey kvWrite\<rparr> = Some e \<and>
              depSnapshot e = depSnapshotOfReads cfg (Reads kv)))"
  proof (intro impI ballI)
    fix kvWrite
    assume L: "LineageSupported cfg" and w: "kvWrite \<in> set (Writes kv)"
      and m: "\<not> HasSuffix (wKey kvWrite) ''_prov''"
    from lineage_writes_entry[OF w m, of n "collectDeps (Writes kv)"
            "depSnapshotOfReads cfg (Reads kv)" txops]
    obtain e where "foldl (writeWithDepStep n (collectDeps (Writes kv))
            (depSnapshotOfReads cfg (Reads kv))) txops (Writes kv)
            \<lparr>ns = n, coll = [], key = wKey kvWrite\<rparr> = Some e"
        "depSnapshot e = depSnapshotOfReads cfg (Reads kv)" by blast
    with L show "\<exists>e. applyWrites cfg n kv txops \<lparr>ns = n, coll = [], key = wKey kvWrite\<rparr> = Some e \<and>
              depSnapshot e = depSnapshotOfReads cfg (Reads kv)"
      by (simp add: applyWrites_def)
  qed
  have h: "\<not> LineageSupported cfg \<longrightarrow>
      applyWrites cfg n kv txops =
        foldl (\<lambda>t kvWrite. applyKVWrite n [] kvWrite t) txops (Writes kv) \<and>
      (\<forall>ck e. projection cfg Serialize rwset ck = Some e \<longrightarrow>
         deps e = None \<and> depSnapshot e = 0) \<and>
      (\<forall>cks pu db txops' ck e.
         snd (prepareTxOps cfg Serialize cks rwset pu db) = Inr txops' \<and> txops' ck = Some e \<longrightarrow>
         deps e = None \<and> depSnapshot e = 0)"
  proof (intro impI conjI allI)
    assume "\<not> LineageSupported cfg"
    then show "applyWrites cfg n kv txops =
        foldl (\<lambda>t kvWrite. applyKVWrite n [] kvWrite t) txops (Writes kv)"
      by (simp add: applyWrites_def)
  next
    fix ck e
    assume nl: "\<not> LineageSupported cfg" and p: "projection cfg Serialize rwset ck = Some e"
    from noDeps_projection[OF nl, of Serialize rwset] p
    show "deps e = None" "depSnapshot e = 0" by (simp_all add: noDeps_def)
  next
    fix cks pu db txops' ck e'
    assume nl: "\<not> LineageSupported cfg"
      and r: "snd (prepareTxOps cfg Serialize cks rwset pu db) = Inr txops' \<and> txops' ck = Some e'"
    from r have "snd (mergeLoop pu db cks (projection cfg Serialize rwset)) = Inr txops'"
      and t: "txops' ck = Some e'"
      by (simp_all add: prepareTxOps_def)
    from mergeLoop_origin[OF this] obtain e0 where
      e0: "projection cfg Serialize rwset ck = Some e0" "deps e' = deps e0"
      "depSnapshot e' = depSnapshot e0" by blast
    from noDeps_projection[OF nl, of Serialize rwset] e0
    show "deps e' = None" "depSnapshot e' = 0" by (simp_all add: noDeps_def)
  qed
  show ?thesis by (rule conjI[OF a conjI[OF b conjI[OF c conjI[OF d h]]]])
qed

theorem depSnapshot_derivation_witness:
  "depSnapshotOfReads lineageOCCConfig
     ([\<lparr>rKey = ''w'', rVersion = Some \<lparr>BlockNum = 3, TxNum = 0\<rparr>\<rparr>] @
      [\<lparr>rKey = ''x'', rVersion = Some \<lparr>BlockNum = 7, TxNum = 0\<rparr>\<rparr>]) = 7 \<and>
   depSnapshotOfReads lineageConfig
     [\<lparr>rKey = ''x'', rVersion = Some \<lparr>BlockNum = 7, TxNum = 0\<rparr>\<rparr>] = MaxUint64 \<and>
   (\<exists>e. applyWrites lineageOCCConfig ''n''
          \<lparr>Reads = [\<lparr>rKey = ''x'', rVersion = Some \<lparr>BlockNum = 7, TxNum = 0\<rparr>\<rparr>],
           Writes = [\<lparr>wKey = ''x'', wIsDelete = False, wValue = Some ''v''\<rparr>],
           MetadataWrites = []\<rparr> Map.empty \<lparr>ns = ''n'', coll = [], key = ''x''\<rparr> = Some e \<and>
        depSnapshot e = 7) \<and>
   (\<exists>e. projection plainConfig sampleSerialize
        (publicRwSet [\<lparr>rKey = ''x'', rVersion = Some \<lparr>BlockNum = 7, TxNum = 0\<rparr>\<rparr>]
           [\<lparr>wKey = ''x'', wIsDelete = False, wValue = Some ''v''\<rparr>] [])
        \<lparr>ns = ''n'', coll = [], key = ''x''\<rparr> = Some e \<and>
      deps e = None \<and> depSnapshot e = 0)"
proof -
  let ?r3 = "\<lparr>rKey = ''w'', rVersion = Some \<lparr>BlockNum = 3, TxNum = 0\<rparr>\<rparr>"
  let ?r7 = "\<lparr>rKey = ''x'', rVersion = Some \<lparr>BlockNum = 7, TxNum = 0\<rparr>\<rparr>"
  let ?w = "\<lparr>wKey = ''x'', wIsDelete = False, wValue = Some ''v''\<rparr>"
  let ?kv = "\<lparr>Reads = [?r7], Writes = [?w], MetadataWrites = []\<rparr>"
  let ?rw = "publicRwSet [?r7] [?w] []"
  have occ: "IsOCC lineageOCCConfig" "LineageSupported lineageOCCConfig"
    by (simp_all add: lineageOCCConfig_def)
  have nocc: "\<not> IsOCC lineageConfig" by (simp add: lineageConfig_def)
  have plain: "\<not> LineageSupported plainConfig" by (simp add: plainConfig_def)
  have suf: "\<not> HasSuffix (wKey ?w) ''_prov''" by (simp add: HasSuffix_def)
  note A = depSnapshot_derivation[of lineageOCCConfig "[?r3]" ?r7 ?kv "''n''" Map.empty
             sampleSerialize ?rw]
  note B = depSnapshot_derivation[of lineageConfig "[?r7]" ?r7 ?kv "''n''" Map.empty
             sampleSerialize ?rw]
  note C = depSnapshot_derivation[of plainConfig "[?r7]" ?r7 ?kv "''n''" Map.empty
             sampleSerialize ?rw]
  have 1: "depSnapshotOfReads lineageOCCConfig ([?r3] @ [?r7]) = 7"
    using A occ by simp
  have 2: "depSnapshotOfReads lineageConfig [?r7] = MaxUint64"
    using B nocc by simp
  have r7: "depSnapshotOfReads lineageOCCConfig ([] @ [?r7]) = 7"
    using depSnapshot_derivation[of lineageOCCConfig "[]" ?r7 ?kv "''n''" Map.empty
             sampleSerialize ?rw] occ by simp
  have 3: "\<exists>e. applyWrites lineageOCCConfig ''n'' ?kv Map.empty
      \<lparr>ns = ''n'', coll = [], key = ''x''\<rparr> = Some e \<and> depSnapshot e = 7"
    using A occ suf r7 by simp
  have 4: "\<forall>ck e. projection plainConfig sampleSerialize ?rw ck = Some e \<longrightarrow>
      deps e = None \<and> depSnapshot e = 0"
    using C plain by blast
  have 5: "\<exists>e. projection plainConfig sampleSerialize ?rw \<lparr>ns = ''n'', coll = [], key = ''x''\<rparr>
      = Some e"
    by (simp add: projection_defs sample_defs)
  from 4 5 have 6: "\<exists>e. projection plainConfig sampleSerialize ?rw
      \<lparr>ns = ''n'', coll = [], key = ''x''\<rparr> = Some e \<and> deps e = None \<and> depSnapshot e = 0"
    by blast
  from 1 2 3 6 show ?thesis by simp
qed

text \<open>
  C8, as stated, fails: in provenance mode the filter on the suffix \<open>_prov\<close> is applied to
  the public writes only. A hashed write whose key hash ends in \<open>_prov\<close> is projected, and
  \<open>prepareTxOps\<close> returns its entry.
\<close>

theorem prov_suffix_counterexample:
  "LineageSupported lineageConfig \<and>
   HasSuffix (key \<lparr>ns = ''n'', coll = ''c'', key = ''h_prov''\<rparr>) ''_prov'' \<and>
   rangeOrder [\<lparr>ns = ''n'', coll = ''c'', key = ''h_prov''\<rparr>]
     (projection lineageConfig sampleSerialize hashedProvRwSet) \<and>
   prepareTxOps lineageConfig sampleSerialize [\<lparr>ns = ''n'', coll = ''c'', key = ''h_prov''\<rparr>]
     hashedProvRwSet noUpdates emptyDB
   = ([], Inr [\<lparr>ns = ''n'', coll = ''c'', key = ''h_prov''\<rparr> \<mapsto>
                \<lparr>flag = keyDelete, value = None, metadata = None, deps = None,
                 depSnapshot = 0\<rparr>])"
  by (simp add: prepareTxOps_def rangeOrder_def hashedProvRwSet_def projection_defs sample_defs
        flag_defs)

text \<open>
  C8, amended. In provenance mode, a composite key of the TxOps returned by
  \<open>prepareTxOps\<close> whose key ends in \<open>_prov\<close> is the key of a public metadata write or of a
  write or metadata write of a hashed collection of the read-write set: no public write
  whose key ends in \<open>_prov\<close> makes an entry.
\<close>

theorem prov_suffix_origin:
  assumes "LineageSupported cfg"
    and "snd (prepareTxOps cfg Serialize cks rwset pu db) = Inr txops'"
    and "txops' ck = Some e"
    and "HasSuffix (key ck) ''_prov''"
  shows "\<exists>nsRWSet \<in> set (NsRwSets rwset).
           ck \<in> set (publicMetadataKeys nsRWSet) \<union> set (hashedKeys nsRWSet)"
proof -
  from assms(2) have "snd (mergeLoop pu db cks (projection cfg Serialize rwset)) = Inr txops'"
    by (simp add: prepareTxOps_def)
  from mergeLoop_origin[OF this assms(3)]
  have "ck \<in> dom (projection cfg Serialize rwset)" by auto
  with dom_projection_lineage_upper[OF assms(1), of Serialize rwset]
  obtain nsr where nsr: "nsr \<in> set (NsRwSets rwset)"
    "ck \<in> {ck. ck \<in> set (publicWriteKeys nsr) \<and> \<not> HasSuffix (key ck) ''_prov''}
          \<union> set (publicMetadataKeys nsr) \<union> set (hashedKeys nsr)"
    by blast
  from nsr(2) assms(4) have "ck \<in> set (publicMetadataKeys nsr) \<union> set (hashedKeys nsr)"
    by simp
  with nsr(1) show ?thesis by (rule_tac bexI)
qed

theorem prov_suffix_origin_witness:
  "\<exists>t e. snd (prepareTxOps lineageConfig sampleSerialize
             [\<lparr>ns = ''n'', coll = ''c'', key = ''h_prov''\<rparr>] hashedProvRwSet noUpdates emptyDB)
           = Inr t \<and>
         t \<lparr>ns = ''n'', coll = ''c'', key = ''h_prov''\<rparr> = Some e \<and>
         (\<exists>nsRWSet \<in> set (NsRwSets hashedProvRwSet).
            \<lparr>ns = ''n'', coll = ''c'', key = ''h_prov''\<rparr>
              \<in> set (publicMetadataKeys nsRWSet) \<union> set (hashedKeys nsRWSet))"
proof -
  let ?ck = "\<lparr>ns = ''n'', coll = ''c'', key = ''h_prov''\<rparr>"
  let ?e = "\<lparr>flag = keyDelete, value = None, metadata = None, deps = None, depSnapshot = 0\<rparr>"
  have h1: "LineageSupported lineageConfig" by (simp add: lineageConfig_def)
  have h2: "snd (prepareTxOps lineageConfig sampleSerialize [?ck] hashedProvRwSet noUpdates emptyDB)
      = Inr [?ck \<mapsto> ?e]"
    by (simp add: prepareTxOps_def hashedProvRwSet_def projection_defs sample_defs flag_defs)
  have h3: "[?ck \<mapsto> ?e] ?ck = Some ?e" by simp
  have h4: "HasSuffix (key ?ck) ''_prov''" by (simp add: HasSuffix_def)
  from prov_suffix_origin[OF h1 h2 h3 h4] h2 h3 show ?thesis by blast
qed



end
